theory Spec2Isabelle
  imports Main
begin

section \<open>The AST node model\<close>

text \<open>
  A position (\<^verbatim>\<open>Pos\<close>, a \<^verbatim>\<open>const char *\<close> into the query text) is the offset of the
  character it points at; the input range \<^verbatim>\<open>[begin, end)\<close> is the string \<open>buf\<close>, and the
  \<^verbatim>\<open>end\<close> argument every parser receives is \<open>length buf\<close>.
  An \<^verbatim>\<open>ASTPtr\<close> is a nullable handle: \<open>None\<close> is the null pointer.
\<close>

type_synonym Pos = nat
type_synonym StringRange = "Pos \<times> Pos"

text \<open>
  The nodes the sub-parsers hand to the column parsers: identifiers, literals, and the
  function-like node of a data type (\<^verbatim>\<open>ASTFunction\<close>, with its arguments).
\<close>

datatype ast =
    ASTIdentifier StringRange string
  | ASTLiteral StringRange string
  | ASTFunction StringRange string "ast list"

text \<open>
  \<^verbatim>\<open>IAST\<close> carries the source range and the list of children; the two node classes of
  this development add their named fields. The handle type \<open>'p\<close> is \<open>ast option\<close> where
  nodes are values (the parsers, the formatter) and an optional address where nodes live
  in a store (\<^verbatim>\<open>clone\<close>).
\<close>

record 'p IAST =
  range' :: StringRange
  children :: "'p list"

record 'p ASTNameTypePair = "'p IAST" +
  name :: string
  type :: 'p

record 'p ASTColumnDeclaration = "'p IAST" +
  name :: string
  type :: 'p
  default_specifier :: string
  default_expression :: 'p
  codec :: 'p
  comment :: 'p

datatype exception = Bad_cast

text \<open>
  \<^verbatim>\<open>typeid_cast<ASTIdentifier &>(*name).name\<close>: the name of an identifier node; any other
  node (or no node) makes the cast throw.
\<close>

fun typeid_cast_ASTIdentifier_name :: "ast option \<Rightarrow> exception + string" where
  "typeid_cast_ASTIdentifier_name (Some (ASTIdentifier r n)) = Inr n"
| "typeid_cast_ASTIdentifier_name _ = Inl Bad_cast"

section \<open>Parsers: the calling convention\<close>

text \<open>
  A parser's \<^verbatim>\<open>parseImpl(pos, end, node, max_parsed_pos, expected)\<close> takes the
  position by reference and returns a flag; as a function it maps the buffer and the
  position to the flag, the position it leaves behind and the node it leaves behind.
  Every call in this file passes a fresh null handle, so the incoming node is not an
  argument of a sub-parser. \<^verbatim>\<open>max_parsed_pos\<close> and \<^verbatim>\<open>expected\<close> are only handed
  on to the sub-parsers; no branch of the two \<^verbatim>\<open>parseImpl\<close> bodies reads them, and they
  are left out.
\<close>

type_synonym 'n parser = "string \<Rightarrow> Pos \<Rightarrow> bool \<times> Pos \<times> 'n option"

text \<open>
  Modelled from the spec: \<^verbatim>\<open>IParserBase::parse\<close> (Parsers/IParserBase.h is not among the
  sources). ``On failure it must leave the caller's position variable unchanged'': what
  \<^verbatim>\<open>parse\<close> does once \<^verbatim>\<open>parseImpl\<close> has returned, given the position saved before the
  call. A failed attempt also leaves the null handle, which line 168 of
  ParserCreateQuery.h relies on (\<^verbatim>\<open>else if (!type)\<close> after a failed type parse).
\<close>

definition IParserBase_parse_finish :: "Pos \<Rightarrow> bool \<times> Pos \<times> 'n option \<Rightarrow> bool \<times> Pos \<times> 'n option" where
  "IParserBase_parse_finish begin r =
     (case r of (res, pos, node) \<Rightarrow> if \<not> res then (False, begin, None) else (True, pos, node))"

definition parse :: "'n parser \<Rightarrow> string \<Rightarrow> Pos \<Rightarrow> bool \<times> Pos \<times> 'n option" where
  "parse p buf pos = (let begin = pos in IParserBase_parse_finish begin (p buf pos))"

text \<open>
  Modelled from the spec: \<^verbatim>\<open>IParser::ignore\<close> (``attempt and discard any produced
  node'') and \<^verbatim>\<open>IParser::check\<close> (``attempt, and if it fails, guarantee the position is
  restored exactly as if nothing ran''). A successful \<^verbatim>\<open>check\<close> leaves the position
  behind the match, which is why the caller at line 150 resets it.
\<close>

definition ignore :: "'n parser \<Rightarrow> string \<Rightarrow> Pos \<Rightarrow> bool \<times> Pos" where
  "ignore p buf pos = (case parse p buf pos of (res, pos, ignore_node) \<Rightarrow> (res, pos))"

definition check :: "'n parser \<Rightarrow> string \<Rightarrow> Pos \<Rightarrow> bool \<times> Pos" where
  "check p buf pos =
     (let begin = pos in
      case parse p buf pos of (res, pos, node) \<Rightarrow>
        if \<not> res then (False, begin) else (True, pos))"

subsection \<open>Keywords\<close>

definition lower_letters :: string where
  "lower_letters = ''abcdefghijklmnopqrstuvwxyz''"

definition upper_letters :: string where
  "upper_letters = ''ABCDEFGHIJKLMNOPQRSTUVWXYZ''"

definition digits :: string where
  "digits = ''0123456789''"

definition isAlphaASCII :: "char \<Rightarrow> bool" where
  "isAlphaASCII c = (c \<in> set (lower_letters @ upper_letters))"

definition isNumericASCII :: "char \<Rightarrow> bool" where
  "isNumericASCII c = (c \<in> set digits)"

definition isWordCharASCII :: "char \<Rightarrow> bool" where
  "isWordCharASCII c = (isAlphaASCII c \<or> isNumericASCII c \<or> c = CHR ''_'')"

definition isWhitespaceASCII :: "char \<Rightarrow> bool" where
  "isWhitespaceASCII c = (c \<in> set [CHR '' '', CHR 0x09, CHR 0x0A, CHR 0x0D, CHR 0x0C, CHR 0x0B])"

text \<open>\<^verbatim>\<open>Poco::toUpper\<close>: ASCII letters to upper case, every other character kept.\<close>

definition toUpper_char :: "char \<Rightarrow> char" where
  "toUpper_char c = (case map_of (zip lower_letters upper_letters) c of Some u \<Rightarrow> u | None \<Rightarrow> c)"

definition toUpper :: "string \<Rightarrow> string" where
  "toUpper s = map toUpper_char s"

text \<open>
  Modelled from the spec: \<^verbatim>\<open>ParserString\<close> (Parsers/CommonParsers.h is not among the
  sources), constructed as \<^verbatim>\<open>ParserString{s, word_boundary, case_insensitive}\<close>: the
  ``case-insensitive whole-word keywords'' of the column declaration. The text at the
  position must be \<open>s\<close> (up to the case of letters when \<open>case_insensitive\<close>), and with
  \<open>word_boundary\<close> a keyword that ends in a word character must not be followed by
  one. A match moves the position behind the keyword and produces no node.
\<close>

definition ParserString :: "string \<Rightarrow> bool \<Rightarrow> bool \<Rightarrow> 'n parser" where
  "ParserString s word_boundary case_insensitive buf pos =
     (let s_size = length s;
          text = take s_size (drop pos buf)
      in if length buf < pos + s_size
            \<or> \<not> (if case_insensitive then toUpper text = toUpper s else text = s)
         then (False, pos, None)
         else if word_boundary \<and> s_size \<noteq> 0 \<and> isWordCharASCII (last s)
                 \<and> pos + s_size \<noteq> length buf \<and> isWordCharASCII (buf ! (pos + s_size))
         then (False, pos, None)
         else (True, pos + s_size, None))"

subsection \<open>The sub-parsers a column parser is built from\<close>

text \<open>
  \<^verbatim>\<open>NameParser\<close> is the template argument (\<^verbatim>\<open>ParserIdentifier\<close> or
  \<^verbatim>\<open>ParserCompoundIdentifier\<close>); the type, whitespace and expression parsers are only
  declared in the sources, and the theorems below hold for whatever they do. The fields
  carry the names of the local parser objects.
\<close>

record parsers =
  name_parser :: "ast parser"
  type_parser :: "ast parser"
  ws :: "ast parser"
  expr_parser :: "ast parser"

section \<open>\<^verbatim>\<open>IParserNameTypePair<NameParser>::parseImpl\<close>\<close>

definition IParserNameTypePair_parseImpl ::
  "parsers \<Rightarrow> string \<Rightarrow> Pos \<Rightarrow> (ast option) ASTNameTypePair option
     \<Rightarrow> exception + bool \<times> Pos \<times> (ast option) ASTNameTypePair option" where
  "IParserNameTypePair_parseImpl P buf pos node =
     (let begin = pos in
      case parse (name_parser P) buf pos of (r_name, pos, name_node) \<Rightarrow>
        if \<not> r_name then Inr (False, pos, node) else
      case ignore (ws P) buf pos of (r_ws, pos) \<Rightarrow>
        if \<not> r_ws then Inr (False, pos, node) else
      case parse (type_parser P) buf pos of (r_type, pos, type_node) \<Rightarrow>
        if \<not> r_type then Inr (False, pos, node) else
        (case typeid_cast_ASTIdentifier_name name_node of
           Inl e \<Rightarrow> Inl e
         | Inr n \<Rightarrow>
             Inr (True, pos,
                  Some \<lparr>range' = (begin, pos), children = [type_node],
                        ASTNameTypePair.name = n, ASTNameTypePair.type = type_node\<rparr>)))"

section \<open>\<^verbatim>\<open>IParserColumnDeclaration<NameParser>::parseImpl\<close>\<close>

definition s_default :: "ast parser" where
  "s_default = ParserString ''DEFAULT'' True True"

definition s_materialized :: "ast parser" where
  "s_materialized = ParserString ''MATERIALIZED'' True True"

definition s_alias :: "ast parser" where
  "s_alias = ParserString ''ALIAS'' True True"

text \<open>
  Lines 140--150: the column name is followed by a type unless it is immediately followed
  by one of the three keywords. The result is the position and the \<^verbatim>\<open>type\<close> handle after
  the block.
\<close>

definition type_unless_specifier :: "parsers \<Rightarrow> string \<Rightarrow> Pos \<Rightarrow> Pos \<times> ast option" where
  "type_unless_specifier P buf pos =
     (let fallback_pos = pos in
      case check s_default buf pos of (c_default, pos) \<Rightarrow>
        if c_default then (fallback_pos, None) else
      case check s_materialized buf pos of (c_materialized, pos) \<Rightarrow>
        if c_materialized then (fallback_pos, None) else
      case check s_alias buf pos of (c_alias, pos) \<Rightarrow>
        if c_alias then (fallback_pos, None) else
      case parse (type_parser P) buf pos of (r_type, pos, type_node) \<Rightarrow>
        if r_type then (snd (ignore (ws P) buf pos), type_node) else (pos, type_node))"

text \<open>
  Lines 156--158: the condition
  \<^verbatim>\<open>s_default.ignore(..) || s_materialized.ignore(..) || s_alias.ignore(..)\<close>, with the
  position it leaves.
\<close>

definition ignore_specifier :: "string \<Rightarrow> Pos \<Rightarrow> bool \<times> Pos" where
  "ignore_specifier buf pos =
     (case ignore s_default buf pos of (r_default, pos) \<Rightarrow>
        if r_default then (True, pos) else
      case ignore s_materialized buf pos of (r_materialized, pos) \<Rightarrow>
        if r_materialized then (True, pos) else
      ignore s_alias buf pos)"

text \<open>
  Lines 171--187: the node is built once every early return has been passed. The
  constructor takes the range; the handles start null and the specifier empty. The cast
  of line 173 throws when the name node is not an identifier; an exception is the result
  \<open>Inl\<close>, and what it leaves behind (the handle assigned at line 172) is not followed.
\<close>

definition make_column_declaration ::
  "Pos \<Rightarrow> Pos \<Rightarrow> ast option \<Rightarrow> ast option \<Rightarrow> string \<Rightarrow> ast option
     \<Rightarrow> exception + bool \<times> Pos \<times> (ast option) ASTColumnDeclaration option" where
  "make_column_declaration begin pos name_node type_node specifier expression_node =
     (case typeid_cast_ASTIdentifier_name name_node of
        Inl e \<Rightarrow> Inl e
      | Inr n \<Rightarrow>
          let column_declaration =
                \<lparr>range' = (begin, pos), children = [],
                 name = n, type = None, default_specifier = [],
                 default_expression = None, codec = None, comment = None\<rparr>;
              column_declaration =
                (if type_node \<noteq> None
                 then column_declaration
                        \<lparr>type := type_node, children := children column_declaration @ [type_node]\<rparr>
                 else column_declaration);
              column_declaration =
                (if expression_node \<noteq> None
                 then column_declaration
                        \<lparr>default_specifier := specifier,
                         default_expression := expression_node,
                         children := children column_declaration @ [expression_node]\<rparr>
                 else column_declaration)
          in Inr (True, pos, Some column_declaration))"

definition IParserColumnDeclaration_parseImpl ::
  "parsers \<Rightarrow> string \<Rightarrow> Pos \<Rightarrow> (ast option) ASTColumnDeclaration option
     \<Rightarrow> exception + bool \<times> Pos \<times> (ast option) ASTColumnDeclaration option" where
  "IParserColumnDeclaration_parseImpl P buf pos node =
     (let begin = pos in
      case parse (name_parser P) buf pos of (r_name, pos, name_node) \<Rightarrow>
        if \<not> r_name then Inr (False, pos, node) else
      case ignore (ws P) buf pos of (r_ws, pos) \<Rightarrow>
      case type_unless_specifier P buf pos of (pos, type_node) \<Rightarrow>
      let pos_before_specifier = pos in
      case ignore_specifier buf pos of (r_specifier, pos) \<Rightarrow>
        if r_specifier then
          let specifier =
                toUpper (take (pos - pos_before_specifier) (drop pos_before_specifier buf)) in
          case ignore (ws P) buf pos of (r_ws', pos) \<Rightarrow>
          case parse (expr_parser P) buf pos of (r_expr, pos, expression_node) \<Rightarrow>
            if \<not> r_expr then Inr (False, pos, node)
            else make_column_declaration begin pos name_node type_node specifier expression_node
        else if type_node = None then Inr (False, pos, node)
        else make_column_declaration begin pos name_node type_node [] None)"

text \<open>
  What a caller sees: \<^verbatim>\<open>parse\<close> of the column-declaration parser is the inherited
  \<^verbatim>\<open>IParserBase::parse\<close> around the \<^verbatim>\<open>parseImpl\<close> above. A thrown exception passes
  through.
\<close>

definition IParserColumnDeclaration_parse ::
  "parsers \<Rightarrow> string \<Rightarrow> Pos \<Rightarrow> (ast option) ASTColumnDeclaration option
     \<Rightarrow> exception + bool \<times> Pos \<times> (ast option) ASTColumnDeclaration option" where
  "IParserColumnDeclaration_parse P buf pos node =
     (let begin = pos in
      case IParserColumnDeclaration_parseImpl P buf pos node of
        Inl e \<Rightarrow> Inl e
      | Inr r \<Rightarrow> Inr (IParserBase_parse_finish begin r))"

subsection \<open>The keywords as the specification words them\<close>

text \<open>
  ``The next token is one of the case-insensitive whole-word keywords'': at \<open>pos\<close> the
  text reads \<open>kw\<close> (written in upper case) up to the case of its letters, and what
  follows is the end of the input or a character that is not a word character. This
  predicate is stated on the text alone and is compared below with the three probes of
  the code.
\<close>

definition keyword_at :: "string \<Rightarrow> string \<Rightarrow> Pos \<Rightarrow> bool" where
  "keyword_at kw buf pos =
     (length kw \<le> length (drop pos buf)
      \<and> toUpper (take (length kw) (drop pos buf)) = kw
      \<and> (case drop (length kw) (drop pos buf) of [] \<Rightarrow> True | c # cs \<Rightarrow> \<not> isWordCharASCII c))"

section \<open>Reference sub-parsers for the worked inputs\<close>

text \<open>
  The example inputs of the specification (\<^verbatim>\<open>x DEFAULT 1\<close>, \<^verbatim>\<open>x UInt8 DEFAULT 1\<close>,
  \<^verbatim>\<open>x MATERIALIZED\<close>, \<^verbatim>\<open>x\<close>) need sub-parsers to run on. The four below cover the
  tokens of those inputs: plain identifiers, blanks, type names without a parameter list,
  and unsigned integer literals.
\<close>

text \<open>
  Modelled from the spec: \<^verbatim>\<open>ParserIdentifier\<close> (Parsers/ExpressionElementParsers.h is not
  among the sources), ``parse plain identifiers'': a letter or underscore followed by
  letters, digits and underscores; the node is an \<^verbatim>\<open>ASTIdentifier\<close> spanning the word.
  Back-quoted identifiers are not covered.
\<close>

definition ParserIdentifier :: "ast parser" where
  "ParserIdentifier buf pos =
     (let begin = pos;
          word = (case drop pos buf of
                    [] \<Rightarrow> []
                  | c # cs \<Rightarrow>
                      if isAlphaASCII c \<or> c = CHR ''_''
                      then c # takeWhile isWordCharASCII cs else []);
          pos = pos + length word
      in if pos \<noteq> begin then (True, pos, Some (ASTIdentifier (begin, pos) word))
         else (False, pos, None))"

text \<open>
  Modelled from the spec: \<^verbatim>\<open>ParserWhitespaceOrComments\<close> (Parsers/CommonParsers.h is not
  among the sources), ``whitespace/comment skipping'': skips a non-empty run of blanks
  and produces no node. Comments are not covered.
\<close>

definition ParserWhitespaceOrComments :: "ast parser" where
  "ParserWhitespaceOrComments buf pos =
     (let begin = pos;
          pos = pos + length (takeWhile isWhitespaceASCII (drop pos buf))
      in (pos \<noteq> begin, pos, None))"

text \<open>
  Modelled from the spec: \<^verbatim>\<open>ParserIdentifierWithOptionalParameters::parseImpl\<close> (declared
  at line 48, defined outside the sources), for a type written without parameters:
  ``absence simply yields a zero-argument function-like node''. A parenthesised
  parameter list is not covered.
\<close>

definition ParserIdentifierWithOptionalParameters :: "ast parser" where
  "ParserIdentifierWithOptionalParameters buf pos =
     (let begin = pos in
      case parse ParserIdentifier buf pos of (r_ident, pos, ident) \<Rightarrow>
        if \<not> r_ident then (False, begin, None) else
        (case ident of
           Some (ASTIdentifier r n) \<Rightarrow> (True, pos, Some (ASTFunction (begin, pos) n []))
         | _ \<Rightarrow> (False, begin, None)))"

text \<open>
  Modelled from the spec: \<^verbatim>\<open>ParserTernaryOperatorExpression\<close> (Parsers/ExpressionListParsers.h
  is not among the sources), the ``external expression grammar'', for an expression that
  is one unsigned integer literal; the node is an \<^verbatim>\<open>ASTLiteral\<close> carrying the digits.
\<close>

definition ParserTernaryOperatorExpression :: "ast parser" where
  "ParserTernaryOperatorExpression buf pos =
     (let begin = pos;
          pos = pos + length (takeWhile isNumericASCII (drop pos buf))
      in if pos \<noteq> begin
         then (True, pos, Some (ASTLiteral (begin, pos) (take (pos - begin) (drop begin buf))))
         else (False, pos, None))"

definition reference_parsers :: parsers where
  "reference_parsers =
     \<lparr>name_parser = ParserIdentifier,
      type_parser = ParserIdentifierWithOptionalParameters,
      ws = ParserWhitespaceOrComments,
      expr_parser = ParserTernaryOperatorExpression\<rparr>"

section \<open>\<^verbatim>\<open>ASTColumnDeclaration::formatImpl\<close>\<close>

text \<open>
  \<^verbatim>\<open>FormatSettings\<close> and \<^verbatim>\<open>FormatStateStacked\<close> are declared outside the sources; the
  records hold the members \<^verbatim>\<open>formatImpl\<close> reads. \<^verbatim>\<open>settings.ostr\<close> is the output
  stream: a formatter is modelled by the text it writes to it, together with the
  \<^verbatim>\<open>FormatState\<close> it leaves (passed by reference, of a type \<open>'st\<close> the column node never
  looks into). The frame is passed by value: it is an argument and not part of the
  result.
\<close>

record FormatSettings =
  hilite :: bool
  one_line :: bool
  nl_or_ws :: char

record FormatStateStacked =
  indent :: nat
  need_parens :: bool

text \<open>
  What \<^verbatim>\<open>formatImpl\<close> calls and does not define: \<^verbatim>\<open>backQuoteIfNeed\<close>, the two
  highlighting markers, and the virtual \<^verbatim>\<open>formatImpl\<close> of a child node.
\<close>

record 'st format_env =
  backQuoteIfNeed :: "string \<Rightarrow> string"
  hilite_keyword :: string
  hilite_none :: string
  child_formatImpl :: "ast \<Rightarrow> FormatSettings \<Rightarrow> 'st \<Rightarrow> FormatStateStacked \<Rightarrow> string \<times> 'st"

text \<open>One optional child: the text before it, then the child's own text.\<close>

definition format_child ::
  "'st format_env \<Rightarrow> ast option \<Rightarrow> string \<Rightarrow> FormatSettings \<Rightarrow> FormatStateStacked
     \<Rightarrow> string \<times> 'st \<Rightarrow> string \<times> 'st" where
  "format_child E child lead settings frame acc =
     (case child of
        None \<Rightarrow> acc
      | Some c \<Rightarrow>
          (case acc of (ostr, state) \<Rightarrow>
           case child_formatImpl E c settings state frame of (s, state) \<Rightarrow>
             (ostr @ lead @ s, state)))"

definition ASTColumnDeclaration_formatImpl ::
  "'st format_env \<Rightarrow> (ast option) ASTColumnDeclaration \<Rightarrow> FormatSettings \<Rightarrow> 'st
     \<Rightarrow> FormatStateStacked \<Rightarrow> string \<times> 'st" where
  "ASTColumnDeclaration_formatImpl E this settings state frame =
     (let frame = frame\<lparr>need_parens := False\<rparr>;
          indent_str = (if one_line settings then [] else replicate (4 * indent frame) CHR '' '');
          kw = (\<lambda>w. (if hilite settings then hilite_keyword E else []) @ w
                     @ (if hilite settings then hilite_none E else []));
          acc = ([nl_or_ws settings] @ indent_str @ backQuoteIfNeed E (name this), state);
          acc = format_child E (type this) '' '' settings frame acc;
          acc = format_child E (default_expression this)
                  ('' '' @ kw (default_specifier this) @ '' '') settings frame acc;
          acc = format_child E (comment this) ('' '' @ kw ''COMMENT'' @ '' '') settings frame acc;
          acc = format_child E (codec this) '' '' settings frame acc
      in acc)"

subsection \<open>Reference formatting helpers for the worked inputs\<close>

definition isPlainIdentifier :: "string \<Rightarrow> bool" where
  "isPlainIdentifier s =
     (case s of [] \<Rightarrow> False
      | c # cs \<Rightarrow> (isAlphaASCII c \<or> c = CHR ''_'') \<and> list_all isWordCharASCII cs)"

text \<open>
  Modelled from the spec: \<^verbatim>\<open>backQuoteIfNeed\<close> (``rendering an identifier that may require
  back-quoting in output''): a plain identifier is written as it is, any other name
  between back quotes. Escapes inside the quotes are not covered.
\<close>

definition backQuoteIfNeed_reference :: "string \<Rightarrow> string" where
  "backQuoteIfNeed_reference s = (if isPlainIdentifier s then s else ''`'' @ s @ ''`'')"

fun join_comma :: "string list \<Rightarrow> string" where
  "join_comma [] = []"
| "join_comma [s] = s"
| "join_comma (s # ss) = s @ '', '' @ join_comma ss"

text \<open>
  Modelled from the spec: the \<^verbatim>\<open>formatImpl\<close> of the child nodes (defined outside the
  sources): an identifier and a literal write their text, a function-like node its name
  and, when it has arguments, the parenthesised list. The \<^verbatim>\<open>FormatState\<close> is left as it
  is.
\<close>

fun format_ast :: "ast \<Rightarrow> string" where
  "format_ast (ASTIdentifier r n) = backQuoteIfNeed_reference n"
| "format_ast (ASTLiteral r v) = v"
| "format_ast (ASTFunction r n args) =
     (if args = [] then n else n @ ''('' @ join_comma (map format_ast args) @ '')'')"


subsection \<open>Structural equality\<close>




section \<open>\<^verbatim>\<open>ASTColumnDeclaration::clone\<close>\<close>

text \<open>
  Whether two handles lead to one node is what \<^verbatim>\<open>clone\<close> is about, so here nodes live
  in a store and a handle is an optional address. \<^verbatim>\<open>std::make_shared\<close> takes the next
  free address.
\<close>

type_synonym addr = nat

datatype node =
    ColumnDeclaration "(addr option) ASTColumnDeclaration"
  | Other string "addr option list"

record store =
  objects :: "addr \<Rightarrow> node option"
  next_free :: addr

definition make_shared :: "node \<Rightarrow> store \<Rightarrow> addr \<times> store" where
  "make_shared obj \<sigma> =
     (let a = next_free \<sigma>
      in (a, \<sigma>\<lparr>objects := (objects \<sigma>)(a \<mapsto> obj), next_free := a + 1\<rparr>))"

text \<open>An assignment through \<^verbatim>\<open>res->\<close>: the column declaration at \<open>a\<close> is updated in place.\<close>

definition assign :: "addr \<Rightarrow> ((addr option) ASTColumnDeclaration \<Rightarrow> (addr option) ASTColumnDeclaration)
     \<Rightarrow> store \<Rightarrow> store" where
  "assign a f \<sigma> =
     (case objects \<sigma> a of
        Some (ColumnDeclaration d) \<Rightarrow> \<sigma>\<lparr>objects := (objects \<sigma>)(a \<mapsto> ColumnDeclaration (f d))\<rparr>
      | _ \<Rightarrow> \<sigma>)"

text \<open>
  \<open>this\<close> holds the members of the node being cloned (the method is \<^verbatim>\<open>const\<close>).
  \<open>clone_child\<close> is the virtual \<^verbatim>\<open>clone()\<close> of a child node, defined outside the
  sources: given the child's address it returns the handle of the copy and the store
  with the copy in it.
\<close>

definition ASTColumnDeclaration_clone ::
  "(addr \<Rightarrow> store \<Rightarrow> addr option \<times> store) \<Rightarrow> (addr option) ASTColumnDeclaration \<Rightarrow> store
     \<Rightarrow> addr option \<times> store" where
  "ASTColumnDeclaration_clone clone_child this \<sigma> =
     (case make_shared (ColumnDeclaration this) \<sigma> of (res, \<sigma>) \<Rightarrow>
      let \<sigma> = assign res (\<lambda>d. d\<lparr>children := []\<rparr>) \<sigma>;
          \<sigma> = (case type this of
                 None \<Rightarrow> \<sigma>
               | Some t \<Rightarrow>
                   let \<sigma> = assign res (\<lambda>d. d\<lparr>type := type this\<rparr>) \<sigma>
                   in assign res (\<lambda>d. d\<lparr>children := children d @ [type d]\<rparr>) \<sigma>);
          \<sigma> = (case default_expression this of
                 None \<Rightarrow> \<sigma>
               | Some e \<Rightarrow>
                   (case clone_child e \<sigma> of (c, \<sigma>) \<Rightarrow>
                    let \<sigma> = assign res (\<lambda>d. d\<lparr>default_expression := c\<rparr>) \<sigma>
                    in assign res (\<lambda>d. d\<lparr>children := children d @ [default_expression d]\<rparr>) \<sigma>));
          \<sigma> = (case codec this of
                 None \<Rightarrow> \<sigma>
               | Some e \<Rightarrow>
                   (case clone_child e \<sigma> of (c, \<sigma>) \<Rightarrow>
                    let \<sigma> = assign res (\<lambda>d. d\<lparr>codec := c\<rparr>) \<sigma>
                    in assign res (\<lambda>d. d\<lparr>children := children d @ [codec d]\<rparr>) \<sigma>));
          \<sigma> = (case comment this of
                 None \<Rightarrow> \<sigma>
               | Some e \<Rightarrow>
                   (case clone_child e \<sigma> of (c, \<sigma>) \<Rightarrow>
                    let \<sigma> = assign res (\<lambda>d. d\<lparr>comment := c\<rparr>) \<sigma>
                    in assign res (\<lambda>d. d\<lparr>children := children d @ [comment d]\<rparr>) \<sigma>))
      in (Some res, \<sigma>))"

section \<open>Facts about the calling convention, the stages and the worked inputs\<close>

subsection \<open>Failure leaves the position; a keyword match moves it\<close>

lemma parse_False: "parse p buf pos = (False, pos', n) \<Longrightarrow> pos' = pos \<and> n = None"
  by (auto simp: parse_def IParserBase_parse_finish_def split: prod.splits if_splits)

lemma ignore_False: "ignore p buf pos = (False, pos') \<Longrightarrow> pos' = pos"
  by (auto simp: ignore_def dest: parse_False split: prod.splits)

lemma check_False: "check p buf pos = (False, pos') \<Longrightarrow> pos' = pos"
  by (auto simp: check_def split: prod.splits if_splits)

lemma ParserString_True:
  "ParserString s wb ci buf pos = (True, pos', n) \<Longrightarrow> pos' = pos + length s \<and> pos + length s \<le> length buf \<and> n = None"
  by (auto simp: ParserString_def Let_def split: if_splits)

lemma ignore_ParserString_True:
  "ignore (ParserString s wb ci) buf pos = (True, pos') \<Longrightarrow> pos' = pos + length s \<and> pos + length s \<le> length buf"
  by (auto simp: ignore_def parse_def IParserBase_parse_finish_def split: prod.splits if_splits dest: ParserString_True)

lemma ignore_specifier_True:
  "ignore_specifier buf pos = (True, pos') \<Longrightarrow> pos < pos' \<and> pos' \<le> length buf"
  by (auto simp: ignore_specifier_def s_default_def s_materialized_def s_alias_def split: prod.splits if_splits
      dest!: ignore_ParserString_True ignore_False)

lemma ignore_specifier_False:
  "ignore_specifier buf pos = (False, pos') \<Longrightarrow> pos' = pos"
  by (auto simp: ignore_specifier_def split: prod.splits if_splits dest!: ignore_False)

subsection \<open>What a successful parse has built\<close>

lemma make_column_declaration_Inr:
  "make_column_declaration b p nn t s e = Inr res \<Longrightarrow>
     \<exists>n. typeid_cast_ASTIdentifier_name nn = Inr n \<and>
       res = (True, p, Some \<lparr>range' = (b, p),
          children = (if t \<noteq> None then [t] else []) @ (if e \<noteq> None then [e] else []),
          name = n, type = t, default_specifier = (if e \<noteq> None then s else []),
          default_expression = e, codec = None, comment = None\<rparr>)"
  by (auto simp: make_column_declaration_def Let_def split: sum.splits)

lemma make_column_declaration_pos:
  "make_column_declaration b p nn t s e = Inr (r, p', nd) \<Longrightarrow> r \<and> p' = p \<and> nd \<noteq> None"
  by (auto simp: make_column_declaration_def Let_def split: sum.splits)

lemma parseImpl_True:
  assumes "IParserColumnDeclaration_parseImpl P buf pos node = Inr (True, pos', nd)"
  shows "\<exists>p1 nn p3 t p4 e.
     parse (name_parser P) buf pos = (True, p1, nn) \<and>
     type_unless_specifier P buf (snd (ignore (ws P) buf p1)) = (p3, t) \<and>
     ((ignore_specifier buf p3 = (True, p4) \<and>
       parse (expr_parser P) buf (snd (ignore (ws P) buf p4)) = (True, pos', e) \<and>
       make_column_declaration pos pos' nn t (toUpper (take (p4 - p3) (drop p3 buf))) e = Inr (True, pos', nd))
      \<or> (ignore_specifier buf p3 = (False, p3) \<and> t \<noteq> None \<and> e = None \<and> p4 = p3 \<and>
       make_column_declaration pos p3 nn t [] None = Inr (True, pos', nd)))"
  using assms
  apply (simp add: IParserColumnDeclaration_parseImpl_def Let_def split: prod.splits if_splits)
   apply (auto dest!: ignore_specifier_False dest: make_column_declaration_pos)
  done

lemma parseImpl_True_make:
  assumes "IParserColumnDeclaration_parseImpl P buf pos node = Inr (True, pos', nd)"
  shows "\<exists>nn t s e. make_column_declaration pos pos' nn t s e = Inr (True, pos', nd)"
  using parseImpl_True[OF assms] by (metis make_column_declaration_pos)

lemma make_column_declaration_fields:
  assumes "make_column_declaration b p nn t s e = Inr (r, p', nd)"
  shows "\<exists>cd. nd = Some cd \<and> range' cd = (b, p) \<and> type cd = t \<and> default_expression cd = e
           \<and> default_specifier cd = (if e \<noteq> None then s else [])
           \<and> codec cd = None \<and> comment cd = None
           \<and> children cd = (if t \<noteq> None then [t] else []) @ (if e \<noteq> None then [e] else [])
           \<and> typeid_cast_ASTIdentifier_name nn = Inr (name cd)"
  using make_column_declaration_Inr[OF assms] by auto

lemma parseImpl_shape:
  assumes "IParserColumnDeclaration_parseImpl P buf pos node = Inr (True, pos', nd)"
  shows "\<exists>cd. nd = Some cd \<and> range' cd = (pos, pos') \<and> codec cd = None \<and> comment cd = None
           \<and> children cd = (if type cd \<noteq> None then [type cd] else [])
                            @ (if default_expression cd \<noteq> None then [default_expression cd] else [])"
proof -
  from parseImpl_True_make[OF assms] obtain nn t s e
    where "make_column_declaration pos pos' nn t s e = Inr (True, pos', nd)" by blast
  from make_column_declaration_fields[OF this] show ?thesis by auto
qed

subsection \<open>The keyword probe and the default clause\<close>

lemma x_UInt8_DEFAULT_1:
  "IParserColumnDeclaration_parseImpl reference_parsers ''x UInt8 DEFAULT 1'' 0 None =
     Inr (True, 17,
       Some \<lparr>range' = (0, 17),
             children = [Some (ASTFunction (2, 7) ''UInt8'' []), Some (ASTLiteral (16, 17) ''1'')],
             name = ''x'', type = Some (ASTFunction (2, 7) ''UInt8'' []),
             default_specifier = ''DEFAULT'',
             default_expression = Some (ASTLiteral (16, 17) ''1''),
             codec = None, comment = None\<rparr>)"
  by code_simp

lemma check_eq_ignore: "check p buf pos = ignore p buf pos"
  by (auto simp: check_def ignore_def split: prod.splits dest: parse_False)

lemma type_unless_specifier_probe:
  assumes "fst (check s_default buf pos) \<or> fst (check s_materialized buf pos) \<or> fst (check s_alias buf pos)"
  shows "type_unless_specifier P buf pos = (pos, None)"
proof -
  have d: "\<And>q. check s_default buf pos = (False, q) \<Longrightarrow> q = pos" by (rule check_False)
  have m: "\<And>q. check s_materialized buf pos = (False, q) \<Longrightarrow> q = pos" by (rule check_False)
  from assms d m show ?thesis
    by (auto simp: type_unless_specifier_def split: prod.splits)
qed

lemma ignore_specifier_probe:
  assumes "fst (check s_default buf pos) \<or> fst (check s_materialized buf pos) \<or> fst (check s_alias buf pos)"
  shows "fst (ignore_specifier buf pos)"
proof -
  have d: "\<And>q. ignore s_default buf pos = (False, q) \<Longrightarrow> q = pos" by (rule ignore_False)
  have m: "\<And>q. ignore s_materialized buf pos = (False, q) \<Longrightarrow> q = pos" by (rule ignore_False)
  from assms d m show ?thesis
    by (auto simp: ignore_specifier_def check_eq_ignore split: prod.splits)
qed

lemma x_DEFAULT_1:
  "IParserColumnDeclaration_parseImpl reference_parsers ''x DEFAULT 1'' 0 None =
     Inr (True, 11,
       Some \<lparr>range' = (0, 11), children = [Some (ASTLiteral (10, 11) ''1'')],
             name = ''x'', type = None, default_specifier = ''DEFAULT'',
             default_expression = Some (ASTLiteral (10, 11) ''1''),
             codec = None, comment = None\<rparr>)"
  by code_simp

lemma x_MATERIALIZED:
  "IParserColumnDeclaration_parseImpl reference_parsers ''x MATERIALIZED'' 0 None = Inr (False, 14, None)"
  by code_simp

lemma specifier_commits:
  assumes "parse (name_parser P) buf pos = (True, p1, nn)"
      and "type_unless_specifier P buf (snd (ignore (ws P) buf p1)) = (p3, t)"
      and "ignore_specifier buf p3 = (True, p4)"
      and "\<not> fst (parse (expr_parser P) buf (snd (ignore (ws P) buf p4)))"
  shows "IParserColumnDeclaration_parseImpl P buf pos node = Inr (False, snd (ignore (ws P) buf p4), node)"
proof -
  obtain w1 q1 where i1: "ignore (ws P) buf p1 = (w1, q1)"
    by (cases "ignore (ws P) buf p1") auto
  obtain w4 q4 where i4: "ignore (ws P) buf p4 = (w4, q4)"
    by (cases "ignore (ws P) buf p4") auto
  obtain r q e where pe: "parse (expr_parser P) buf q4 = (r, q, e)"
    by (cases "parse (expr_parser P) buf q4") auto
  from assms(4) i4 pe have "\<not> r" by simp
  with pe have "q = q4" by (auto dest: parse_False)
  with pe \<open>\<not> r\<close> i1 i4 assms(1-3) show ?thesis
    by (simp add: IParserColumnDeclaration_parseImpl_def)
qed

lemma children_type_default:
  assumes "IParserColumnDeclaration_parseImpl P buf pos node = Inr (True, pos', Some cd)"
      and "type cd = Some t" and "default_expression cd = Some e"
  shows "children cd = [Some t, Some e]"
  using parseImpl_shape[OF assms(1)] assms(2,3) by auto

lemma c1_String_alias_42:
  "IParserColumnDeclaration_parseImpl reference_parsers ''c1 String alias 42'' 0 None =
     Inr (True, 18,
       Some \<lparr>range' = (0, 18),
             children = [Some (ASTFunction (3, 9) ''String'' []), Some (ASTLiteral (16, 18) ''42'')],
             name = ''c1'', type = Some (ASTFunction (3, 9) ''String'' []),
             default_specifier = ''ALIAS'',
             default_expression = Some (ASTLiteral (16, 18) ''42''),
             codec = None, comment = None\<rparr>)"
  by code_simp

lemma specifier_nonempty:
  assumes "ignore_specifier buf p3 = (True, p4)"
  shows "toUpper (take (p4 - p3) (drop p3 buf)) \<noteq> []"
  using ignore_specifier_True[OF assms] by (simp add: toUpper_def)

lemma parseImpl_invariants:
  assumes "IParserColumnDeclaration_parseImpl P buf pos node = Inr (True, pos', nd)"
  shows "\<exists>cd. nd = Some cd
           \<and> ((default_expression cd \<noteq> None) = (default_specifier cd \<noteq> []))
           \<and> ((\<forall>q q'. expr_parser P buf q \<noteq> (True, q', None))
                \<longrightarrow> type cd \<noteq> None \<or> default_expression cd \<noteq> None)"
proof -
  from parseImpl_True[OF assms] obtain nn p3 t p4 e where
    alt: "(ignore_specifier buf p3 = (True, p4) \<and>
       parse (expr_parser P) buf (snd (ignore (ws P) buf p4)) = (True, pos', e) \<and>
       make_column_declaration pos pos' nn t (toUpper (take (p4 - p3) (drop p3 buf))) e = Inr (True, pos', nd))
      \<or> (ignore_specifier buf p3 = (False, p3) \<and> t \<noteq> None \<and> e = None \<and> p4 = p3 \<and>
       make_column_declaration pos p3 nn t [] None = Inr (True, pos', nd))"
    by blast
  then show ?thesis
  proof
    assume a: "ignore_specifier buf p3 = (True, p4) \<and>
       parse (expr_parser P) buf (snd (ignore (ws P) buf p4)) = (True, pos', e) \<and>
       make_column_declaration pos pos' nn t (toUpper (take (p4 - p3) (drop p3 buf))) e = Inr (True, pos', nd)"
    then have ne: "toUpper (take (p4 - p3) (drop p3 buf)) \<noteq> []" by (simp add: specifier_nonempty)
    from a have "expr_parser P buf (snd (ignore (ws P) buf p4)) = (True, pos', e)"
      by (auto simp: parse_def IParserBase_parse_finish_def split: prod.splits if_splits)
    then have c: "(\<forall>q q'. expr_parser P buf q \<noteq> (True, q', None)) \<longrightarrow> e \<noteq> None"
      by (cases e) auto
    from a have mk: "make_column_declaration pos pos' nn t
        (toUpper (take (p4 - p3) (drop p3 buf))) e = Inr (True, pos', nd)" by simp
    from make_column_declaration_fields[OF mk] obtain cd where
      "nd = Some cd" "type cd = t" "default_expression cd = e"
      "default_specifier cd = (if e \<noteq> None then toUpper (take (p4 - p3) (drop p3 buf)) else [])"
      by blast
    with ne c show ?thesis by auto
  next
    assume b: "ignore_specifier buf p3 = (False, p3) \<and> t \<noteq> None \<and> e = None \<and> p4 = p3 \<and>
       make_column_declaration pos p3 nn t [] None = Inr (True, pos', nd)"
    then have mk: "make_column_declaration pos p3 nn t [] None = Inr (True, pos', nd)" by simp
    from make_column_declaration_fields[OF mk] obtain cd where
      "nd = Some cd" "type cd = t" "default_expression cd = None" "default_specifier cd = []"
      by auto
    with b show ?thesis by auto
  qed
qed

lemma bare_name_rejected:
  assumes "parse (name_parser P) buf pos = (True, p1, nn)"
      and "type_unless_specifier P buf (snd (ignore (ws P) buf p1)) = (p3, None)"
      and "\<not> fst (ignore_specifier buf p3)"
  shows "IParserColumnDeclaration_parseImpl P buf pos node = Inr (False, p3, node)"
proof -
  obtain w1 q1 where i1: "ignore (ws P) buf p1 = (w1, q1)"
    by (cases "ignore (ws P) buf p1") auto
  obtain r q where s: "ignore_specifier buf p3 = (r, q)"
    by (cases "ignore_specifier buf p3") auto
  with assms(3) have "\<not> r" by simp
  with s have "q = p3" by (auto dest: ignore_specifier_False)
  with s \<open>\<not> r\<close> i1 assms(1,2) show ?thesis
    by (simp add: IParserColumnDeclaration_parseImpl_def)
qed

lemma x_alone:
  "IParserColumnDeclaration_parseImpl reference_parsers ''x'' 0 None = Inr (False, 1, None)"
  by code_simp

lemma reference_expression_node:
  "ParserTernaryOperatorExpression buf q \<noteq> (True, q', None)"
  by (simp add: ParserTernaryOperatorExpression_def Let_def)

subsection \<open>Alternatives run at the saved position\<close>

lemma parse_fail_pos: "\<not> fst (parse p buf pos) \<Longrightarrow> fst (snd (parse p buf pos)) = pos"
  by (cases "parse p buf pos") (auto dest: parse_False)

lemma ignore_fail_pos: "\<not> fst (ignore p buf pos) \<Longrightarrow> snd (ignore p buf pos) = pos"
  by (cases "ignore p buf pos") (auto dest: ignore_False)

lemma check_fail_pos: "\<not> fst (check p buf pos) \<Longrightarrow> snd (check p buf pos) = pos"
  by (cases "check p buf pos") (auto dest: check_False)

lemma IParserColumnDeclaration_parse_False:
  "IParserColumnDeclaration_parse P buf pos node = Inr (False, pos', nd) \<Longrightarrow> pos' = pos \<and> nd = None"
  by (auto simp: IParserColumnDeclaration_parse_def IParserBase_parse_finish_def
      split: sum.splits prod.splits if_splits)

lemma ignore_specifier_alternatives:
  "ignore_specifier buf pos =
     (if fst (ignore s_default buf pos) then ignore s_default buf pos
      else if fst (ignore s_materialized buf pos) then ignore s_materialized buf pos
      else ignore s_alias buf pos)"
proof -
  have d: "\<And>q. ignore s_default buf pos = (False, q) \<Longrightarrow> q = pos" by (rule ignore_False)
  have m: "\<And>q. ignore s_materialized buf pos = (False, q) \<Longrightarrow> q = pos" by (rule ignore_False)
  from d m show ?thesis
    by (auto simp: ignore_specifier_def split: prod.splits)
qed

lemma type_unless_specifier_alternatives:
  "type_unless_specifier P buf pos =
     (if fst (check s_default buf pos) \<or> fst (check s_materialized buf pos) \<or> fst (check s_alias buf pos)
      then (pos, None)
      else case parse (type_parser P) buf pos of
             (r, q, t) \<Rightarrow> if r then (snd (ignore (ws P) buf q), t) else (pos, None))"
proof (cases "fst (check s_default buf pos) \<or> fst (check s_materialized buf pos) \<or> fst (check s_alias buf pos)")
  case True
  then show ?thesis by (simp add: type_unless_specifier_probe)
next
  case False
  have d: "\<And>q. check s_default buf pos = (False, q) \<Longrightarrow> q = pos" by (rule check_False)
  have m: "\<And>q. check s_materialized buf pos = (False, q) \<Longrightarrow> q = pos" by (rule check_False)
  have a: "\<And>q. check s_alias buf pos = (False, q) \<Longrightarrow> q = pos" by (rule check_False)
  have t: "\<And>q n. parse (type_parser P) buf pos = (False, q, n) \<Longrightarrow> q = pos \<and> n = None" by (rule parse_False)
  from False d m a t show ?thesis
    by (auto simp: type_unless_specifier_def split: prod.splits)
qed

subsection \<open>Formatting and parsing a name with a type\<close>

lemma format_child_need_parens:
  "format_child (E\<lparr>child_formatImpl := \<lambda>c s st fr. child_formatImpl E c s st (fr\<lparr>need_parens := False\<rparr>)\<rparr>)
      child lead settings (frame\<lparr>need_parens := False\<rparr>) acc
   = format_child E child lead settings (frame\<lparr>need_parens := False\<rparr>) acc"
  by (simp add: format_child_def split: option.splits prod.splits)






subsection \<open>The probes read the keywords of the text\<close>

lemma ParserString_keyword_at:
  assumes "kw \<noteq> []" and "isWordCharASCII (last kw)" and "toUpper kw = kw"
  shows "fst (ParserString kw True True buf pos) = keyword_at kw buf pos"
proof (cases "length buf < pos + length kw")
  case True
  with assms(1) have "\<not> length kw \<le> length buf - pos" by (cases kw) auto
  with True show ?thesis by (simp add: ParserString_def keyword_at_def Let_def)
next
  case False
  then have le: "pos + length kw \<le> length buf" by simp
  then have l: "length kw \<le> length buf - pos" by simp
  show ?thesis
  proof (cases "pos + length kw = length buf")
    case True
    then have "drop (length kw) (drop pos buf) = []" by (simp add: add.commute)
    with True l assms show ?thesis
      by (simp add: ParserString_def keyword_at_def Let_def)
  next
    case False
    with le have lt: "pos + length kw < length buf" by simp
    then have "drop (length kw) (drop pos buf) = buf ! (pos + length kw) # drop (Suc (pos + length kw)) buf"
      by (simp add: Cons_nth_drop_Suc add.commute)
    with lt l assms show ?thesis
      by (auto simp: ParserString_def keyword_at_def Let_def)
  qed
qed

lemma check_fst: "fst (check p buf pos) = fst (p buf pos)"
  by (auto simp: check_def parse_def IParserBase_parse_finish_def split: prod.splits)

lemma check_s_default: "fst (check s_default buf pos) = keyword_at ''DEFAULT'' buf pos"
  unfolding check_fst s_default_def
  by (rule ParserString_keyword_at) (simp_all add: isWordCharASCII_def isAlphaASCII_def
      upper_letters_def lower_letters_def toUpper_def toUpper_char_def)

lemma check_s_materialized: "fst (check s_materialized buf pos) = keyword_at ''MATERIALIZED'' buf pos"
  unfolding check_fst s_materialized_def
  by (rule ParserString_keyword_at) (simp_all add: isWordCharASCII_def isAlphaASCII_def
      upper_letters_def lower_letters_def toUpper_def toUpper_char_def)

lemma check_s_alias: "fst (check s_alias buf pos) = keyword_at ''ALIAS'' buf pos"
  unfolding check_fst s_alias_def
  by (rule ParserString_keyword_at) (simp_all add: isWordCharASCII_def isAlphaASCII_def
      upper_letters_def lower_letters_def toUpper_def toUpper_char_def)

subsection \<open>What the reference sub-parsers accept and read back\<close>






















section \<open>The claims\<close>

subsection \<open>Claim C1: \<^verbatim>\<open>clone\<close> and the type node\<close>

text \<open>
  Claim C1 says that \<^verbatim>\<open>clone()\<close> clones every child, the type included, so that clone
  and original share no node. The code copies the type handle (line 14) where it clones
  the default expression, the codec and the comment (lines 20, 26, 32). Cloning the
  declaration \<^verbatim>\<open>x UInt8\<close>, stored at address 1 with its type node at address 0, makes
  one new node, at address 2, and its type handle is address 0 again: the type node of
  the clone is the type node of the original.
\<close>

theorem clone_shares_type_node:
  "\<forall>clone_child.
     ASTColumnDeclaration_clone clone_child
       \<lparr>range' = (0, 7), children = [Some 0], name = ''x'', type = Some 0,
        default_specifier = [], default_expression = None, codec = None, comment = None\<rparr>
       \<lparr>objects =
          [0 \<mapsto> Other ''UInt8'' [],
           1 \<mapsto> ColumnDeclaration
                 \<lparr>range' = (0, 7), children = [Some 0], name = ''x'', type = Some 0,
                  default_specifier = [], default_expression = None, codec = None,
                  comment = None\<rparr>],
        next_free = 2\<rparr>
     = (Some 2,
        \<lparr>objects =
           [0 \<mapsto> Other ''UInt8'' [],
            1 \<mapsto> ColumnDeclaration
                  \<lparr>range' = (0, 7), children = [Some 0], name = ''x'', type = Some 0,
                   default_specifier = [], default_expression = None, codec = None,
                   comment = None\<rparr>,
            2 \<mapsto> ColumnDeclaration
                  \<lparr>range' = (0, 7), children = [Some 0], name = ''x'', type = Some 0,
                   default_specifier = [], default_expression = None, codec = None,
                   comment = None\<rparr>],
         next_free = 3\<rparr>)"
  by (simp add: ASTColumnDeclaration_clone_def make_shared_def assign_def)

subsection \<open>Claim C2: a specifier keyword in the type slot\<close>

text \<open>
  Claim C2. When the text at the position after the name reads one of the keywords
  \<^verbatim>\<open>DEFAULT\<close>, \<^verbatim>\<open>MATERIALIZED\<close>, \<^verbatim>\<open>ALIAS\<close>, in any case of letters and as a whole
  word, the type block yields no type and the position it started at, whatever the type
  parser would do there, and the keyword is then consumed from that position. Each of
  the three probes of the code matches exactly where the text reads its keyword
  (\<^verbatim>\<open>default\<close> is taken, \<^verbatim>\<open>defaulted\<close> is not). The input \<^verbatim>\<open>x DEFAULT 1\<close> parses to
  a declaration without a type, with the specifier \<^verbatim>\<open>DEFAULT\<close> and the literal \<^verbatim>\<open>1\<close>
  as its default expression; \<^verbatim>\<open>x ALIAS 1\<close> and \<^verbatim>\<open>x materialized 1\<close> likewise.
\<close>

theorem specifier_probe_skips_type:
  "(\<forall>P buf pos.
      keyword_at ''DEFAULT'' buf pos \<or> keyword_at ''MATERIALIZED'' buf pos
        \<or> keyword_at ''ALIAS'' buf pos
      \<longrightarrow> type_unless_specifier P buf pos = (pos, None) \<and> fst (ignore_specifier buf pos))
   \<and> (\<forall>buf pos.
        fst (check s_default buf pos) = keyword_at ''DEFAULT'' buf pos
        \<and> fst (check s_materialized buf pos) = keyword_at ''MATERIALIZED'' buf pos
        \<and> fst (check s_alias buf pos) = keyword_at ''ALIAS'' buf pos)
   \<and> fst (check s_default ''x default 1'' 2)
   \<and> (fst (check s_default ''x defaulted'' 2) = False)
   \<and> IParserColumnDeclaration_parseImpl reference_parsers ''x DEFAULT 1'' 0 None =
       Inr (True, 11,
         Some \<lparr>range' = (0, 11), children = [Some (ASTLiteral (10, 11) ''1'')],
               name = ''x'', type = None, default_specifier = ''DEFAULT'',
               default_expression = Some (ASTLiteral (10, 11) ''1''),
               codec = None, comment = None\<rparr>)
   \<and> IParserColumnDeclaration_parseImpl reference_parsers ''x ALIAS 1'' 0 None =
       Inr (True, 9,
         Some \<lparr>range' = (0, 9), children = [Some (ASTLiteral (8, 9) ''1'')],
               name = ''x'', type = None, default_specifier = ''ALIAS'',
               default_expression = Some (ASTLiteral (8, 9) ''1''),
               codec = None, comment = None\<rparr>)
   \<and> IParserColumnDeclaration_parseImpl reference_parsers ''x materialized 1'' 0 None =
       Inr (True, 16,
         Some \<lparr>range' = (0, 16), children = [Some (ASTLiteral (15, 16) ''1'')],
               name = ''x'', type = None, default_specifier = ''MATERIALIZED'',
               default_expression = Some (ASTLiteral (15, 16) ''1''),
               codec = None, comment = None\<rparr>)"
proof -
  have probe: "\<forall>P buf pos.
      keyword_at ''DEFAULT'' buf pos \<or> keyword_at ''MATERIALIZED'' buf pos
        \<or> keyword_at ''ALIAS'' buf pos
      \<longrightarrow> type_unless_specifier P buf pos = (pos, None) \<and> fst (ignore_specifier buf pos)"
    using type_unless_specifier_probe ignore_specifier_probe
    by (simp add: check_s_default check_s_materialized check_s_alias)
  have reads: "\<forall>buf pos.
        fst (check s_default buf pos) = keyword_at ''DEFAULT'' buf pos
        \<and> fst (check s_materialized buf pos) = keyword_at ''MATERIALIZED'' buf pos
        \<and> fst (check s_alias buf pos) = keyword_at ''ALIAS'' buf pos"
    by (simp add: check_s_default check_s_materialized check_s_alias)
  have lower: "fst (check s_default ''x default 1'' 2)" by code_simp
  have word: "fst (check s_default ''x defaulted'' 2) = False" by code_simp
  have x_alias: "IParserColumnDeclaration_parseImpl reference_parsers ''x ALIAS 1'' 0 None =
       Inr (True, 9,
         Some \<lparr>range' = (0, 9), children = [Some (ASTLiteral (8, 9) ''1'')],
               name = ''x'', type = None, default_specifier = ''ALIAS'',
               default_expression = Some (ASTLiteral (8, 9) ''1''),
               codec = None, comment = None\<rparr>)"
    by code_simp
  have x_materialized:
    "IParserColumnDeclaration_parseImpl reference_parsers ''x materialized 1'' 0 None =
       Inr (True, 16,
         Some \<lparr>range' = (0, 16), children = [Some (ASTLiteral (15, 16) ''1'')],
               name = ''x'', type = None, default_specifier = ''MATERIALIZED'',
               default_expression = Some (ASTLiteral (15, 16) ''1''),
               codec = None, comment = None\<rparr>)"
    by code_simp
  from probe reads lower word x_DEFAULT_1 x_alias x_materialized show ?thesis by blast
qed

theorem specifier_probe_skips_type_witness:
  "keyword_at ''ALIAS'' ''x alias 1'' 2
   \<and> fst (type_parser reference_parsers ''x alias 1'' 2)
   \<and> type_unless_specifier reference_parsers ''x alias 1'' 2 = (2, None)
   \<and> fst (ignore_specifier ''x alias 1'' 2)
   \<and> keyword_at ''MATERIALIZED'' ''x Materialized 1'' 2
   \<and> type_unless_specifier reference_parsers ''x Materialized 1'' 2 = (2, None)
   \<and> keyword_at ''DEFAULT'' ''x DEFAULT 1'' 2
   \<and> type_unless_specifier reference_parsers ''x DEFAULT 1'' 2 = (2, None)"
proof -
  have a: "keyword_at ''ALIAS'' ''x alias 1'' 2" by code_simp
  have t: "fst (type_parser reference_parsers ''x alias 1'' 2)" by code_simp
  have m: "keyword_at ''MATERIALIZED'' ''x Materialized 1'' 2" by code_simp
  have d: "keyword_at ''DEFAULT'' ''x DEFAULT 1'' 2" by code_simp
  from specifier_probe_skips_type
  have g: "\<forall>P buf pos.
      keyword_at ''DEFAULT'' buf pos \<or> keyword_at ''MATERIALIZED'' buf pos
        \<or> keyword_at ''ALIAS'' buf pos
      \<longrightarrow> type_unless_specifier P buf pos = (pos, None) \<and> fst (ignore_specifier buf pos)"
    by blast
  from g a have ra: "type_unless_specifier reference_parsers ''x alias 1'' 2 = (2, None)
      \<and> fst (ignore_specifier ''x alias 1'' 2)"
    by blast
  from g m have rm: "type_unless_specifier reference_parsers ''x Materialized 1'' 2 = (2, None)"
    by blast
  from g d have rd: "type_unless_specifier reference_parsers ''x DEFAULT 1'' 2 = (2, None)"
    by blast
  from a t ra m rm d rd show ?thesis by blast
qed

subsection \<open>Claim C3: a specifier keyword commits to an expression\<close>

text \<open>
  Claim C3. Once a specifier keyword has been consumed and the expression parser fails
  behind it, \<^verbatim>\<open>parseImpl\<close> returns false, whether or not a type was read before; the
  input \<^verbatim>\<open>x MATERIALIZED\<close> is rejected this way.
\<close>

theorem specifier_requires_expression:
  "(\<forall>P buf pos node p1 nn p3 t p4.
      parse (name_parser P) buf pos = (True, p1, nn)
      \<and> type_unless_specifier P buf (snd (ignore (ws P) buf p1)) = (p3, t)
      \<and> ignore_specifier buf p3 = (True, p4)
      \<and> \<not> fst (parse (expr_parser P) buf (snd (ignore (ws P) buf p4)))
      \<longrightarrow> IParserColumnDeclaration_parseImpl P buf pos node
            = Inr (False, snd (ignore (ws P) buf p4), node))
   \<and> IParserColumnDeclaration_parseImpl reference_parsers ''x MATERIALIZED'' 0 None
       = Inr (False, 14, None)"
  using specifier_commits x_MATERIALIZED by blast

theorem specifier_requires_expression_witness:
  "parse (name_parser reference_parsers) ''x MATERIALIZED'' 0 = (True, 1, Some (ASTIdentifier (0, 1) ''x''))
   \<and> type_unless_specifier reference_parsers ''x MATERIALIZED''
        (snd (ignore (ws reference_parsers) ''x MATERIALIZED'' 1)) = (2, None)
   \<and> ignore_specifier ''x MATERIALIZED'' 2 = (True, 14)
   \<and> \<not> fst (parse (expr_parser reference_parsers) ''x MATERIALIZED''
              (snd (ignore (ws reference_parsers) ''x MATERIALIZED'' 14)))
   \<and> IParserColumnDeclaration_parseImpl reference_parsers ''x MATERIALIZED'' 0 None
       = Inr (False, snd (ignore (ws reference_parsers) ''x MATERIALIZED'' 14), None)"
proof -
  have h1: "parse (name_parser reference_parsers) ''x MATERIALIZED'' 0 = (True, 1, Some (ASTIdentifier (0, 1) ''x''))"
    by code_simp
  have h2: "type_unless_specifier reference_parsers ''x MATERIALIZED''
        (snd (ignore (ws reference_parsers) ''x MATERIALIZED'' 1)) = (2, None)"
    by code_simp
  have h3: "ignore_specifier ''x MATERIALIZED'' 2 = (True, 14)" by code_simp
  have h4: "\<not> fst (parse (expr_parser reference_parsers) ''x MATERIALIZED''
              (snd (ignore (ws reference_parsers) ''x MATERIALIZED'' 14)))"
    by code_simp
  from specifier_requires_expression h1 h2 h3 h4
  have "IParserColumnDeclaration_parseImpl reference_parsers ''x MATERIALIZED'' 0 None
       = Inr (False, snd (ignore (ws reference_parsers) ''x MATERIALIZED'' 14), None)"
    by blast
  with h1 h2 h3 h4 show ?thesis by blast
qed

subsection \<open>Claim C4: the invariants of a parsed declaration\<close>

text \<open>
  Claim C4. In every declaration the parser builds, the default expression is present
  exactly when the specifier is not empty; and, given that the expression parser hands
  over a node whenever it succeeds, the type or the default expression is present. A
  name followed by neither a type nor a specifier is rejected and the node handle stays
  as it was; the input \<^verbatim>\<open>x\<close> is rejected.
\<close>

theorem column_declaration_invariants:
  "(\<forall>P buf pos node pos' nd.
      IParserColumnDeclaration_parseImpl P buf pos node = Inr (True, pos', nd)
      \<longrightarrow> (\<exists>cd. nd = Some cd
             \<and> ((default_expression cd \<noteq> None) = (default_specifier cd \<noteq> []))
             \<and> ((\<forall>q q'. expr_parser P buf q \<noteq> (True, q', None))
                  \<longrightarrow> type cd \<noteq> None \<or> default_expression cd \<noteq> None)))
   \<and> (\<forall>P buf pos node p1 nn p3.
        parse (name_parser P) buf pos = (True, p1, nn)
        \<and> type_unless_specifier P buf (snd (ignore (ws P) buf p1)) = (p3, None)
        \<and> \<not> fst (ignore_specifier buf p3)
        \<longrightarrow> IParserColumnDeclaration_parseImpl P buf pos node = Inr (False, p3, node))
   \<and> IParserColumnDeclaration_parseImpl reference_parsers ''x'' 0 None = Inr (False, 1, None)"
  using parseImpl_invariants bare_name_rejected x_alone by blast

theorem column_declaration_invariants_witness:
  "IParserColumnDeclaration_parseImpl reference_parsers ''x MATERIALIZED 7'' 0 None =
     Inr (True, 16,
       Some \<lparr>range' = (0, 16), children = [Some (ASTLiteral (15, 16) ''7'')],
             name = ''x'', type = None, default_specifier = ''MATERIALIZED'',
             default_expression = Some (ASTLiteral (15, 16) ''7''),
             codec = None, comment = None\<rparr>)
   \<and> (\<forall>q q'. expr_parser reference_parsers ''x MATERIALIZED 7'' q \<noteq> (True, q', None))
   \<and> (\<exists>cd. Some \<lparr>range' = (0, 16), children = [Some (ASTLiteral (15, 16) ''7'')],
             name = ''x'', type = None, default_specifier = ''MATERIALIZED'',
             default_expression = Some (ASTLiteral (15, 16) ''7''),
             codec = None, comment = None\<rparr> = Some cd
          \<and> ((default_expression cd \<noteq> None) = (default_specifier cd \<noteq> []))
          \<and> (type cd \<noteq> None \<or> default_expression cd \<noteq> None))
   \<and> parse (name_parser reference_parsers) ''x'' 0 = (True, 1, Some (ASTIdentifier (0, 1) ''x''))
   \<and> type_unless_specifier reference_parsers ''x'' (snd (ignore (ws reference_parsers) ''x'' 1)) = (1, None)
   \<and> \<not> fst (ignore_specifier ''x'' 1)
   \<and> IParserColumnDeclaration_parseImpl reference_parsers ''x'' 0 None = Inr (False, 1, None)"
proof -
  let ?nd = "Some \<lparr>range' = (0, 16), children = [Some (ASTLiteral (15, 16) ''7'')],
             name = ''x'', type = None, default_specifier = ''MATERIALIZED'',
             default_expression = Some (ASTLiteral (15, 16) ''7''),
             codec = None, comment = None\<rparr>"
  have h: "IParserColumnDeclaration_parseImpl reference_parsers ''x MATERIALIZED 7'' 0 None = Inr (True, 16, ?nd)"
    by code_simp
  have c: "\<forall>q q'. expr_parser reference_parsers ''x MATERIALIZED 7'' q \<noteq> (True, q', None)"
    by (simp add: reference_parsers_def reference_expression_node)
  from column_declaration_invariants h
  have "\<exists>cd. ?nd = Some cd
             \<and> ((default_expression cd \<noteq> None) = (default_specifier cd \<noteq> []))
             \<and> ((\<forall>q q'. expr_parser reference_parsers ''x MATERIALIZED 7'' q \<noteq> (True, q', None))
                  \<longrightarrow> type cd \<noteq> None \<or> default_expression cd \<noteq> None)"
    by blast
  with c have inv: "\<exists>cd. ?nd = Some cd
          \<and> ((default_expression cd \<noteq> None) = (default_specifier cd \<noteq> []))
          \<and> (type cd \<noteq> None \<or> default_expression cd \<noteq> None)"
    by blast
  have n: "parse (name_parser reference_parsers) ''x'' 0 = (True, 1, Some (ASTIdentifier (0, 1) ''x''))"
    by code_simp
  have t: "type_unless_specifier reference_parsers ''x'' (snd (ignore (ws reference_parsers) ''x'' 1)) = (1, None)"
    by code_simp
  have s: "\<not> fst (ignore_specifier ''x'' 1)" by code_simp
  from column_declaration_invariants n t s
  have r: "IParserColumnDeclaration_parseImpl reference_parsers ''x'' 0 None = Inr (False, 1, None)"
    by blast
  from h c inv n t s r show ?thesis by blast
qed

subsection \<open>Claim C5: the type before the default expression\<close>

text \<open>
  Claim C5. A declaration built with both a type and a default expression has exactly
  these two children, the type first. The input \<^verbatim>\<open>x UInt8 DEFAULT 1\<close> parses to a
  declaration with the type \<^verbatim>\<open>UInt8\<close> and the default clause.
\<close>

theorem type_before_default:
  "(\<forall>P buf pos node pos' cd t e.
      IParserColumnDeclaration_parseImpl P buf pos node = Inr (True, pos', Some cd)
      \<and> type cd = Some t \<and> default_expression cd = Some e
      \<longrightarrow> children cd = [Some t, Some e])
   \<and> IParserColumnDeclaration_parseImpl reference_parsers ''x UInt8 DEFAULT 1'' 0 None =
     Inr (True, 17,
       Some \<lparr>range' = (0, 17),
             children = [Some (ASTFunction (2, 7) ''UInt8'' []), Some (ASTLiteral (16, 17) ''1'')],
             name = ''x'', type = Some (ASTFunction (2, 7) ''UInt8'' []),
             default_specifier = ''DEFAULT'',
             default_expression = Some (ASTLiteral (16, 17) ''1''),
             codec = None, comment = None\<rparr>)"
  using children_type_default x_UInt8_DEFAULT_1 by blast

theorem type_before_default_witness:
  "IParserColumnDeclaration_parseImpl reference_parsers ''c1 String alias 42'' 0 None =
     Inr (True, 18,
       Some \<lparr>range' = (0, 18),
             children = [Some (ASTFunction (3, 9) ''String'' []), Some (ASTLiteral (16, 18) ''42'')],
             name = ''c1'', type = Some (ASTFunction (3, 9) ''String'' []),
             default_specifier = ''ALIAS'',
             default_expression = Some (ASTLiteral (16, 18) ''42''),
             codec = None, comment = None\<rparr>)
   \<and> children \<lparr>range' = (0, 18),
             children = [Some (ASTFunction (3, 9) ''String'' []), Some (ASTLiteral (16, 18) ''42'')],
             name = ''c1'', type = Some (ASTFunction (3, 9) ''String'' []),
             default_specifier = ''ALIAS'',
             default_expression = Some (ASTLiteral (16, 18) ''42''),
             codec = None, comment = None\<rparr>
       = [Some (ASTFunction (3, 9) ''String'' []), Some (ASTLiteral (16, 18) ''42'')]"
proof -
  let ?cd = "\<lparr>range' = (0, 18),
             children = [Some (ASTFunction (3, 9) ''String'' []), Some (ASTLiteral (16, 18) ''42'')],
             name = ''c1'', type = Some (ASTFunction (3, 9) ''String'' []),
             default_specifier = ''ALIAS'',
             default_expression = Some (ASTLiteral (16, 18) ''42''),
             codec = None, comment = None\<rparr>"
  have t: "type ?cd = Some (ASTFunction (3, 9) ''String'' [])" by simp
  have e: "default_expression ?cd = Some (ASTLiteral (16, 18) ''42'')" by simp
  from type_before_default c1_String_alias_42 t e
  have "children ?cd = [Some (ASTFunction (3, 9) ''String'' []), Some (ASTLiteral (16, 18) ''42'')]"
    by blast
  with c1_String_alias_42 show ?thesis by blast
qed

subsection \<open>Claim C6: parsing what the formatter wrote\<close>




subsection \<open>Claim C7: failed attempts and the position\<close>

text \<open>
  Claim C7. A failed attempt leaves the position where it was. For the caller of the
  column-declaration parser: when \<^verbatim>\<open>parse\<close> returns false the position is the one it was
  called with. For the alternatives inside: a failed \<^verbatim>\<open>parse\<close>, \<^verbatim>\<open>ignore\<close> or
  \<^verbatim>\<open>check\<close> of any sub-parser leaves its position, so the three keyword probes and the
  type parser all run at the saved position, as do the three keyword alternatives of the
  default clause. (\<^verbatim>\<open>parseImpl\<close> itself may return false with the position advanced;
  the restore is the work of \<^verbatim>\<open>parse\<close>.)
\<close>

theorem failed_attempt_keeps_position:
  "(\<forall>P buf pos node pos' nd.
      IParserColumnDeclaration_parse P buf pos node = Inr (False, pos', nd) \<longrightarrow> pos' = pos)
   \<and> (\<forall>(p :: ast parser) buf pos.
        (\<not> fst (parse p buf pos) \<longrightarrow> fst (snd (parse p buf pos)) = pos)
        \<and> (\<not> fst (ignore p buf pos) \<longrightarrow> snd (ignore p buf pos) = pos)
        \<and> (\<not> fst (check p buf pos) \<longrightarrow> snd (check p buf pos) = pos))
   \<and> (\<forall>P buf pos.
        type_unless_specifier P buf pos =
          (if fst (check s_default buf pos) \<or> fst (check s_materialized buf pos)
               \<or> fst (check s_alias buf pos)
           then (pos, None)
           else case parse (type_parser P) buf pos of
                  (r, q, t) \<Rightarrow> if r then (snd (ignore (ws P) buf q), t) else (pos, None)))
   \<and> (\<forall>buf pos.
        ignore_specifier buf pos =
          (if fst (ignore s_default buf pos) then ignore s_default buf pos
           else if fst (ignore s_materialized buf pos) then ignore s_materialized buf pos
           else ignore s_alias buf pos))"
  using IParserColumnDeclaration_parse_False parse_fail_pos ignore_fail_pos check_fail_pos
    type_unless_specifier_alternatives ignore_specifier_alternatives
  by blast

theorem failed_attempt_keeps_position_witness:
  "IParserColumnDeclaration_parseImpl reference_parsers ''c MATERIALIZED'' 0 None = Inr (False, 14, None)
   \<and> IParserColumnDeclaration_parse reference_parsers ''c MATERIALIZED'' 0 None = Inr (False, 0, None)
   \<and> \<not> fst (check s_default ''c MATERIALIZED'' 2)
   \<and> snd (check s_default ''c MATERIALIZED'' 2) = 2"
proof -
  have raw: "IParserColumnDeclaration_parseImpl reference_parsers ''c MATERIALIZED'' 0 None = Inr (False, 14, None)"
    by code_simp
  then have "\<exists>pos'. IParserColumnDeclaration_parse reference_parsers ''c MATERIALIZED'' 0 None = Inr (False, pos', None)"
    by (simp add: IParserColumnDeclaration_parse_def IParserBase_parse_finish_def)
  then obtain pos' where
    w: "IParserColumnDeclaration_parse reference_parsers ''c MATERIALIZED'' 0 None = Inr (False, pos', None)"
    by blast
  with failed_attempt_keeps_position have "pos' = 0" by blast
  with w have wrapped:
    "IParserColumnDeclaration_parse reference_parsers ''c MATERIALIZED'' 0 None = Inr (False, 0, None)"
    by simp
  have c: "\<not> fst (check s_default ''c MATERIALIZED'' 2)" by code_simp
  with failed_attempt_keeps_position have "snd (check s_default ''c MATERIALIZED'' 2) = 2" by blast
  with raw wrapped c show ?thesis by blast
qed

subsection \<open>Claim C8: the name-type-pair parser\<close>

text \<open>
  Claim C8. The name-type-pair parser takes three steps in order: the name, mandatory
  whitespace, the type. With the outcomes of the three steps named, the parser returns
  false and leaves the node handle as it was as soon as one step fails; when all three
  succeed it builds a pair whose range runs from the start of the name to the end of the
  type, whose name is the identifier's and whose only child is the type node (if the name
  node is not an identifier the cast throws).
\<close>

theorem IParserNameTypePair_parseImpl_steps:
  assumes "parse (name_parser P) buf pos = (r1, p1, nm)"
      and "ignore (ws P) buf p1 = (r2, p2)"
      and "parse (type_parser P) buf p2 = (r3, p3, ty)"
  shows "IParserNameTypePair_parseImpl P buf pos node =
     (if r1 \<and> r2 \<and> r3
      then (case typeid_cast_ASTIdentifier_name nm of
              Inr n \<Rightarrow>
                Inr (True, p3,
                     Some \<lparr>range' = (pos, p3), children = [ty],
                           ASTNameTypePair.name = n, ASTNameTypePair.type = ty\<rparr>)
            | Inl e \<Rightarrow> Inl e)
      else Inr (False, (if \<not> r1 then pos else if \<not> r2 then p1 else p2), node))"
proof (cases r1)
  case False
  with assms(1) have "p1 = pos" by (auto dest: parse_False)
  with False assms(1) show ?thesis by (simp add: IParserNameTypePair_parseImpl_def)
next
  case r1: True
  show ?thesis
  proof (cases r2)
    case False
    with assms(2) have "p2 = p1" by (auto dest: ignore_False)
    with False r1 assms(1,2) show ?thesis by (simp add: IParserNameTypePair_parseImpl_def)
  next
    case r2: True
    show ?thesis
    proof (cases r3)
      case False
      with assms(3) have "p3 = p2" by (auto dest: parse_False)
      with False r1 r2 assms show ?thesis by (simp add: IParserNameTypePair_parseImpl_def)
    next
      case True
      with r1 r2 assms show ?thesis
        by (simp add: IParserNameTypePair_parseImpl_def split: sum.splits)
    qed
  qed
qed

theorem IParserNameTypePair_parseImpl_steps_witness:
  "parse (name_parser reference_parsers) ''URL String'' 0 = (True, 3, Some (ASTIdentifier (0, 3) ''URL''))
   \<and> ignore (ws reference_parsers) ''URL String'' 3 = (True, 4)
   \<and> parse (type_parser reference_parsers) ''URL String'' 4 = (True, 10, Some (ASTFunction (4, 10) ''String'' []))
   \<and> IParserNameTypePair_parseImpl reference_parsers ''URL String'' 0 None =
       Inr (True, 10,
            Some \<lparr>range' = (0, 10), children = [Some (ASTFunction (4, 10) ''String'' [])],
                  ASTNameTypePair.name = ''URL'',
                  ASTNameTypePair.type = Some (ASTFunction (4, 10) ''String'' [])\<rparr>)"
proof -
  have h1: "parse (name_parser reference_parsers) ''URL String'' 0 = (True, 3, Some (ASTIdentifier (0, 3) ''URL''))"
    by code_simp
  have h2: "ignore (ws reference_parsers) ''URL String'' 3 = (True, 4)"
    by code_simp
  have h3: "parse (type_parser reference_parsers) ''URL String'' 4 = (True, 10, Some (ASTFunction (4, 10) ''String'' []))"
    by code_simp
  show ?thesis
    using h1 h2 h3 IParserNameTypePair_parseImpl_steps[OF h1 h2 h3, of None] by simp
qed

subsection \<open>Claim C9: the children of a parsed declaration\<close>

text \<open>
  Claim C9. Every node the column-declaration parser builds has no codec and no comment,
  and its children are exactly those of the type and the default expression that are
  present, the type first: each is held by its field and is an entry of the children
  list, so there are at most two children.
\<close>

theorem column_declaration_children:
  assumes "IParserColumnDeclaration_parseImpl P buf pos node = Inr (True, pos', nd)"
  shows "\<exists>cd. nd = Some cd \<and> codec cd = None \<and> comment cd = None
           \<and> children cd = filter (\<lambda>p. p \<noteq> None) [type cd, default_expression cd]
           \<and> length (children cd) \<le> 2"
  using parseImpl_shape[OF assms] by auto

theorem column_declaration_children_witness:
  "IParserColumnDeclaration_parseImpl reference_parsers ''x UInt8 DEFAULT 1'' 0 None =
     Inr (True, 17,
       Some \<lparr>range' = (0, 17),
             children = [Some (ASTFunction (2, 7) ''UInt8'' []), Some (ASTLiteral (16, 17) ''1'')],
             name = ''x'', type = Some (ASTFunction (2, 7) ''UInt8'' []),
             default_specifier = ''DEFAULT'',
             default_expression = Some (ASTLiteral (16, 17) ''1''),
             codec = None, comment = None\<rparr>)
   \<and> (\<exists>cd. Some \<lparr>range' = (0, 17),
             children = [Some (ASTFunction (2, 7) ''UInt8'' []), Some (ASTLiteral (16, 17) ''1'')],
             name = ''x'', type = Some (ASTFunction (2, 7) ''UInt8'' []),
             default_specifier = ''DEFAULT'',
             default_expression = Some (ASTLiteral (16, 17) ''1''),
             codec = None, comment = None\<rparr> = Some cd \<and> codec cd = None \<and> comment cd = None
           \<and> children cd = filter (\<lambda>p. p \<noteq> None) [type cd, default_expression cd]
           \<and> length (children cd) \<le> 2)"
  using x_UInt8_DEFAULT_1 column_declaration_children[OF x_UInt8_DEFAULT_1] by simp

subsection \<open>Claim C10: the formatter and \<^verbatim>\<open>need_parens\<close>\<close>

text \<open>
  Claim C10. \<^verbatim>\<open>formatImpl\<close> clears \<^verbatim>\<open>need_parens\<close> in its own copy of the frame before
  it writes anything: what it writes does not depend on the flag it was called with, and
  every child formatter is called with the flag cleared (replacing the child formatter by
  one that clears the flag itself changes nothing). The frame is an argument only, so
  nothing of it flows back to the caller.
\<close>

theorem formatImpl_overrides_need_parens:
  "ASTColumnDeclaration_formatImpl E this settings state (frame\<lparr>need_parens := b\<rparr>)
     = ASTColumnDeclaration_formatImpl E this settings state frame
   \<and> ASTColumnDeclaration_formatImpl
       (E\<lparr>child_formatImpl := \<lambda>c s st fr. child_formatImpl E c s st (fr\<lparr>need_parens := False\<rparr>)\<rparr>)
       this settings state frame
     = ASTColumnDeclaration_formatImpl E this settings state frame"
  by (simp add: ASTColumnDeclaration_formatImpl_def format_child_need_parens)

theorem formatImpl_overrides_need_parens_witness:
  "ASTColumnDeclaration_formatImpl
      \<lparr>backQuoteIfNeed = backQuoteIfNeed_reference, hilite_keyword = [], hilite_none = [],
       child_formatImpl = (\<lambda>c s st fr.
          (if need_parens fr then ''('' @ format_ast c @ '')'' else format_ast c, st))\<rparr>
      \<lparr>range' = (0, 17),
       children = [Some (ASTFunction (2, 7) ''UInt8'' []), Some (ASTLiteral (16, 17) ''1'')],
       name = ''x'', type = Some (ASTFunction (2, 7) ''UInt8'' []),
       default_specifier = ''DEFAULT'',
       default_expression = Some (ASTLiteral (16, 17) ''1''),
       codec = None, comment = None\<rparr>
      \<lparr>hilite = False, one_line = True, nl_or_ws = CHR '' ''\<rparr> ()
      \<lparr>indent = 0, need_parens = True\<rparr>
    = ('' x UInt8 DEFAULT 1'', ())"
proof -
  let ?E = "\<lparr>backQuoteIfNeed = backQuoteIfNeed_reference, hilite_keyword = [], hilite_none = [],
       child_formatImpl = (\<lambda>c (s :: FormatSettings) (st :: unit) fr.
          (if need_parens fr then ''('' @ format_ast c @ '')'' else format_ast c, st))\<rparr>"
  let ?d = "\<lparr>range' = (0, 17),
       children = [Some (ASTFunction (2, 7) ''UInt8'' []), Some (ASTLiteral (16, 17) ''1'')],
       name = ''x'', type = Some (ASTFunction (2, 7) ''UInt8'' []),
       default_specifier = ''DEFAULT'',
       default_expression = Some (ASTLiteral (16, 17) ''1''),
       codec = None, comment = None\<rparr>"
  let ?s = "\<lparr>hilite = False, one_line = True, nl_or_ws = CHR '' ''\<rparr>"
  have "ASTColumnDeclaration_formatImpl ?E ?d ?s () \<lparr>indent = 0, need_parens = False\<rparr>
          = ('' x UInt8 DEFAULT 1'', ())"
    by (simp add: ASTColumnDeclaration_formatImpl_def format_child_def backQuoteIfNeed_reference_def
        isPlainIdentifier_def isAlphaASCII_def lower_letters_def upper_letters_def)
  with formatImpl_overrides_need_parens[where E = ?E and this = ?d and settings = ?s
      and state = "()" and frame = "\<lparr>indent = 0, need_parens = False\<rparr>" and b = True]
  show ?thesis by simp
qed

end
